theory Spec2Isabelle
  imports Main
begin

section \<open>Strings\<close>

text \<open>
  A JavaScript string is a sequence of UTF-16 code units. The schedule texts are
  Ukrainian, so a string is modelled as the list of its code units, each a natural
  number; a literal of the source is the list of the code units of that literal.
\<close>

type_synonym jsstring = "nat list"

text \<open>An ASCII literal, written as an Isabelle string.\<close>

definition ascii :: "string \<Rightarrow> jsstring" where
  "ascii s = map of_char s"

text \<open>The class \<open>\d\<close> of a JavaScript regular expression: the ASCII digits.\<close>

definition is_digit :: "nat \<Rightarrow> bool" where
  "is_digit c = (0x30 \<le> c \<and> c \<le> 0x39)"

text \<open>
  The class \<open>\s\<close>, which is also what \<open>String.prototype.trim\<close> removes: the
  white space and line terminator code units of ECMAScript.
\<close>

definition is_space :: "nat \<Rightarrow> bool" where
  "is_space c = (c \<in> {0x9, 0xA, 0xB, 0xC, 0xD, 0x20, 0xA0, 0x1680, 0x2028, 0x2029,
                     0x202F, 0x205F, 0x3000, 0xFEFF} \<or> (0x2000 \<le> c \<and> c \<le> 0x200A))"

text \<open>What \<open>.\<close> does not match: the line terminators.\<close>

definition is_line_terminator :: "nat \<Rightarrow> bool" where
  "is_line_terminator c = (c \<in> {0xA, 0xD, 0x2028, 0x2029})"

definition trim :: "jsstring \<Rightarrow> jsstring" where
  "trim s = rev (dropWhile is_space (rev (dropWhile is_space s)))"

text \<open>\<open>s.split(sep)\<close> for a separator of one code unit.\<close>

fun split_chr :: "nat \<Rightarrow> jsstring \<Rightarrow> jsstring list" where
  "split_chr sep [] = [[]]"
| "split_chr sep (c # cs) =
     (if c = sep then [] # split_chr sep cs
      else (case split_chr sep cs of
              w # ws \<Rightarrow> (c # w) # ws
            | [] \<Rightarrow> [[c]]))"

text \<open>\<open>parts.join(sep)\<close>.\<close>

fun join :: "jsstring \<Rightarrow> jsstring list \<Rightarrow> jsstring" where
  "join sep [] = []"
| "join sep [w] = w"
| "join sep (w # ws) = w @ sep @ join sep ws"

text \<open>
  Matching a literal at the head of a string: the rest of the string after the literal,
  or nothing.
\<close>

fun match_lit :: "jsstring \<Rightarrow> jsstring \<Rightarrow> jsstring option" where
  "match_lit [] s = Some s"
| "match_lit (p # ps) [] = None"
| "match_lit (p # ps) (c # cs) = (if p = c then match_lit ps cs else None)"

definition startsWith :: "jsstring \<Rightarrow> jsstring \<Rightarrow> bool" where
  "startsWith s p = (match_lit p s \<noteq> None)"

text \<open>
  The leftmost occurrence of a literal: the rest of the string after it, or nothing.
\<close>

fun find_after :: "jsstring \<Rightarrow> jsstring \<Rightarrow> jsstring option" where
  "find_after p [] = match_lit p []"
| "find_after p (c # cs) =
     (case match_lit p (c # cs) of
        Some rest \<Rightarrow> Some rest
      | None \<Rightarrow> find_after p cs)"

definition includes_js :: "jsstring \<Rightarrow> jsstring \<Rightarrow> bool" where
  "includes_js s p = (find_after p s \<noteq> None)"

text \<open>Unary plus on a string of decimal digits.\<close>

definition to_number :: "jsstring \<Rightarrow> int" where
  "to_number s = foldl (\<lambda>n c. 10 * n + (int c - 0x30)) 0 s"

subsection \<open>The Ukrainian words of the source's literals\<close>

text \<open>Each word is the list of the UTF-16 code units of the Cyrillic word.\<close>

definition w_Grupa :: jsstring where
  "w_Grupa = [0x413, 0x440, 0x443, 0x43F, 0x430]"

definition w_Elektroenerhii :: jsstring where
  "w_Elektroenerhii =
     [0x415, 0x43B, 0x435, 0x43A, 0x442, 0x440, 0x43E, 0x435, 0x43D, 0x435, 0x440, 0x433,
      0x456, 0x457]"

definition w_Elektroenerhiia :: jsstring where
  "w_Elektroenerhiia =
     [0x415, 0x43B, 0x435, 0x43A, 0x442, 0x440, 0x43E, 0x435, 0x43D, 0x435, 0x440, 0x433,
      0x456, 0x44F]"

definition w_nemaie :: jsstring where
  "w_nemaie = [0x43D, 0x435, 0x43C, 0x430, 0x454]"

definition w_z :: jsstring where
  "w_z = [0x437]"

definition w_do :: jsstring where
  "w_do = [0x434, 0x43E]"

definition w_ie :: jsstring where
  "w_ie = [0x454]"

definition w_ves :: jsstring where
  "w_ves = [0x432, 0x435, 0x441, 0x44C]"

definition w_den :: jsstring where
  "w_den = [0x434, 0x435, 0x43D, 0x44C]"

definition w_dani :: jsstring where
  "w_dani = [0x434, 0x430, 0x43D, 0x456]"

definition w_nedostupni :: jsstring where
  "w_nedostupni = [0x43D, 0x435, 0x434, 0x43E, 0x441, 0x442, 0x443, 0x43F, 0x43D, 0x456]"

definition w_Zavtra :: jsstring where
  "w_Zavtra = [0x417, 0x430, 0x432, 0x442, 0x440, 0x430]"

definition w_Informatsiia :: jsstring where
  "w_Informatsiia = [0x406, 0x43D, 0x444, 0x43E, 0x440, 0x43C, 0x430, 0x446, 0x456, 0x44F]"

definition w_stanom :: jsstring where
  "w_stanom = [0x441, 0x442, 0x430, 0x43D, 0x43E, 0x43C]"

definition w_na :: jsstring where
  "w_na = [0x43D, 0x430]"

section \<open>Instants\<close>

text \<open>
  A \<open>dayjs\<close> value in the zone \<open>TZ\<close> is modelled by its wall-clock reading: the
  number of milliseconds since midnight of 1970-01-01 on the local clock. The zone's
  offset is taken as constant, so every calendar day has 24 hours; days on which the
  offset changes are outside the model. Setting a field beyond its range carries into
  the next field, as the underlying \<open>Date\<close> does.
\<close>

type_synonym dayjs = int

definition msPerMinute :: int where "msPerMinute = 60000"
definition msPerHour :: int where "msPerHour = 3600000"
definition msPerDay :: int where "msPerDay = 86400000"

definition startOf_day :: "dayjs \<Rightarrow> dayjs" where
  "startOf_day t = t - t mod msPerDay"

definition get_hour :: "dayjs \<Rightarrow> int" where
  "get_hour t = (t mod msPerDay) div msPerHour"

definition get_minute :: "dayjs \<Rightarrow> int" where
  "get_minute t = (t mod msPerHour) div msPerMinute"

definition get_second :: "dayjs \<Rightarrow> int" where
  "get_second t = (t mod msPerMinute) div 1000"

definition get_millisecond :: "dayjs \<Rightarrow> int" where
  "get_millisecond t = t mod 1000"

definition set_hour :: "dayjs \<Rightarrow> int \<Rightarrow> dayjs" where
  "set_hour t h = t + (h - get_hour t) * msPerHour"

definition set_minute :: "dayjs \<Rightarrow> int \<Rightarrow> dayjs" where
  "set_minute t m = t + (m - get_minute t) * msPerMinute"

definition set_second :: "dayjs \<Rightarrow> int \<Rightarrow> dayjs" where
  "set_second t s = t + (s - get_second t) * 1000"

definition set_millisecond :: "dayjs \<Rightarrow> int \<Rightarrow> dayjs" where
  "set_millisecond t ms = t + (ms - get_millisecond t)"

definition add_day :: "dayjs \<Rightarrow> int \<Rightarrow> dayjs" where
  "add_day t n = t + n * msPerDay"

definition isBefore :: "dayjs \<Rightarrow> dayjs \<Rightarrow> bool" where
  "isBefore a b = (a < b)"




subsection \<open>The day of the month\<close>










section \<open>Parsing the outage intervals\<close>

text \<open>The type \<open>Range\<close>: one outage window.\<close>

record range =
  range_start :: dayjs
  range_end :: dayjs

text \<open>
  The literal pieces of the pattern \<^verbatim>\<open>/z (\d{2}:\d{2}) do (\d{2}:\d{2})/g\<close>, where
  \<^verbatim>\<open>z\<close> stands for the Cyrillic word \<open>w_z\<close> and \<^verbatim>\<open>do\<close> for \<open>w_do\<close>.
\<close>

definition lit_z_sp :: jsstring where
  "lit_z_sp = w_z @ [0x20]"

definition lit_sp_do_sp :: jsstring where
  "lit_sp_do_sp = [0x20] @ w_do @ [0x20]"


text \<open>The group \<open>(\d{2}:\d{2})\<close> at the head of a string: the capture and the rest.\<close>

fun match_hhmm :: "jsstring \<Rightarrow> (jsstring \<times> jsstring) option" where
  "match_hhmm (a # b # c # d # e # rest) =
     (if is_digit a \<and> is_digit b \<and> c = 0x3A \<and> is_digit d \<and> is_digit e
      then Some ([a, b, c, d, e], rest) else None)"
| "match_hhmm _ = None"

text \<open>The whole pattern at the head of a string: the two captures.\<close>

definition match_range :: "jsstring \<Rightarrow> (jsstring \<times> jsstring) option" where
  "match_range s =
     (case match_lit lit_z_sp s of
        None \<Rightarrow> None
      | Some s1 \<Rightarrow>
          (case match_hhmm s1 of
             None \<Rightarrow> None
           | Some (startStr, s2) \<Rightarrow>
               (case match_lit lit_sp_do_sp s2 of
                  None \<Rightarrow> None
                | Some s3 \<Rightarrow>
                    (case match_hhmm s3 of
                       None \<Rightarrow> None
                     | Some (endStr, s4) \<Rightarrow> Some (startStr, endStr)))))"

text \<open>
  The loop \<open>while ((match = regex.exec(groupText)) !== null)\<close>: the matches from left
  to right. A match has 16 code units and the next search starts behind it; the first
  argument counts the code units still to be skipped.
\<close>

fun exec_all :: "nat \<Rightarrow> jsstring \<Rightarrow> (jsstring \<times> jsstring) list" where
  "exec_all k [] = []"
| "exec_all (Suc k) (c # cs) = exec_all k cs"
| "exec_all 0 (c # cs) =
     (case match_range (c # cs) of
        Some m \<Rightarrow> m # exec_all 15 cs
      | None \<Rightarrow> exec_all 0 cs)"

text \<open>
  \<open>base.hour(+s.split(':')[0]).minute(+s.split(':')[1]).second(0).millisecond(0)\<close>
\<close>

definition clock_on :: "dayjs \<Rightarrow> jsstring \<Rightarrow> dayjs" where
  "clock_on base s =
     set_millisecond
       (set_second
          (set_minute
             (set_hour base (to_number (split_chr 0x3A s ! 0)))
             (to_number (split_chr 0x3A s ! 1)))
          0)
       0"

text \<open>The body of the loop: the range of one match.\<close>

definition range_of_match :: "dayjs \<Rightarrow> jsstring \<times> jsstring \<Rightarrow> range" where
  "range_of_match base m =
     (let startStr = fst m;
          endStr = snd m;
          start = clock_on base startStr;
          end0 = clock_on base endStr;
          end1 = (if endStr = ascii ''24:00''
                  then set_millisecond
                         (set_second (set_minute (set_hour (add_day base 1) 0) 0) 0) 0
                  else end0);
          end2 = (if isBefore end1 start then add_day end1 1 else end1)
      in \<lparr>range_start = start, range_end = end2\<rparr>)"

text \<open>
  \<open>parseTimeRanges\<close>, with the base date given. The sort of the source is stable and
  orders by the start instant.
\<close>

definition parseTimeRanges :: "jsstring \<Rightarrow> dayjs \<Rightarrow> range list" where
  "parseTimeRanges groupText base =
     sort_key range_start (map (range_of_match base) (exec_all 0 groupText))"



section \<open>The status\<close>


text \<open>
  An optional text is truthy when it is present and not empty.
\<close>

definition truthy :: "jsstring option \<Rightarrow> bool" where
  "truthy t = (case t of None \<Rightarrow> False | Some s \<Rightarrow> s \<noteq> [])"



section \<open>Extracting the paragraph of a group\<close>

text \<open>
  \<open>extractGroupText\<close>. The HTML parser is a library; what the function reads of its
  result is the text of each \<^verbatim>\<open>p\<close> element of the loaded document, in document order,
  given here as the second argument. The callback of \<^verbatim>\<open>each\<close> returns nothing, so the
  iteration visits every element.
\<close>

definition group_prefix :: "jsstring \<Rightarrow> jsstring" where
  "group_prefix grp = w_Grupa @ [0x20] @ grp @ [0x2E]"

definition extractGroupText :: "jsstring \<Rightarrow> jsstring list \<Rightarrow> jsstring \<Rightarrow> jsstring option" where
  "extractGroupText html paragraphs grp =
     (if html = [] then None
      else fold (\<lambda>el groupText.
                   let text = trim el
                   in if startsWith text (group_prefix grp) then Some text else groupText)
             paragraphs None)"

section \<open>The schedule content compared between two polls\<close>

text \<open>\<^verbatim>\<open>t.replace(/z\s*/, '')\<close>: the first \<open>w_z\<close> and the white space behind it go.\<close>

fun replace_z_space :: "jsstring \<Rightarrow> jsstring" where
  "replace_z_space [] = []"
| "replace_z_space (c # cs) =
     (if c = 0x437 then dropWhile is_space cs else c # replace_z_space cs)"

text \<open>\<^verbatim>\<open>t.replace(/\.$/, '')\<close>: a full stop at the very end goes.\<close>

definition replace_final_dot :: "jsstring \<Rightarrow> jsstring" where
  "replace_final_dot t = (if t \<noteq> [] \<and> last t = 0x2E then butlast t else t)"

text \<open>
  \<open>parseOutageTimes\<close>. The pattern \<^verbatim>\<open>/nemaie z (.*)/\<close> captures what follows the first
  occurrence of its literal, up to the end of the line.
\<close>

definition lit_nemaie_z :: jsstring where
  "lit_nemaie_z = w_nemaie @ [0x20] @ w_z @ [0x20]"

definition parseOutageTimes :: "jsstring \<Rightarrow> jsstring list" where
  "parseOutageTimes groupText =
     (case find_after lit_nemaie_z groupText of
        None \<Rightarrow> []
      | Some rest \<Rightarrow>
          (let timesStr = takeWhile (\<lambda>c. \<not> is_line_terminator c) rest
           in filter (\<lambda>t. length t > 0)
                (map (\<lambda>t. trim (replace_final_dot (replace_z_space t)))
                   (split_chr 0x2C timesStr))))"

text \<open>\<open>numberToEmoji\<close> and \<open>formatGroupEmoji\<close>: each digit becomes its keycap.\<close>

definition numberToEmoji :: "jsstring \<Rightarrow> jsstring" where
  "numberToEmoji numberStr =
     concat (map (\<lambda>ch. if is_digit ch then [ch, 0xFE0F, 0x20E3] else [ch]) numberStr)"

definition formatGroupEmoji :: "jsstring \<Rightarrow> jsstring" where
  "formatGroupEmoji grp = join [0x2E] (map numberToEmoji (split_chr 0x2E grp))"

text \<open>The literals of \<open>buildScheduleContent\<close>.\<close>

definition lit_all_day_marker :: jsstring where
  "lit_all_day_marker = w_Elektroenerhiia @ [0x20] @ w_ie"

definition lit_all_day :: jsstring where
  "lit_all_day = [0x2705, 0x20] @ w_Elektroenerhiia @ [0x20] @ w_ie @ [0x20] @ w_ves @
                 [0x20] @ w_den @ [0xA]"

definition lit_unavailable :: "jsstring \<Rightarrow> jsstring" where
  "lit_unavailable g = [0x2A] @ g @ [0x2A, 0x3A, 0x20] @ w_dani @ [0x20] @ w_nedostupni @ [0xA]"

definition lit_tomorrow_header :: jsstring where
  "lit_tomorrow_header = [0xA, 0xD83D, 0xDCC5, 0x20] @ w_Zavtra @ [0x3A, 0xA]"

definition lit_tomorrow_all_day :: jsstring where
  "lit_tomorrow_all_day =
     [0xA, 0xD83D, 0xDCC5, 0x20] @ w_Zavtra @ [0x3A, 0x20, 0x2705, 0x20] @ w_Elektroenerhiia @
     [0x20] @ w_ie @ [0x20] @ w_ves @ [0x20] @ w_den @ [0xA]"

definition time_line :: "jsstring \<Rightarrow> jsstring" where
  "time_line t = [0x23F1, 0xFE0F, 0x20] @ t @ [0xA]"

text \<open>
  \<open>buildScheduleContent\<close>. The group is the module's variable \<open>GROUP\<close>, given here as
  the first argument.
\<close>

definition buildScheduleContent :: "jsstring \<Rightarrow> jsstring \<Rightarrow> jsstring option \<Rightarrow> jsstring" where
  "buildScheduleContent GROUP todayGroupText tomorrowGroupText =
     (let content0 = [];
          todayTimes = parseOutageTimes todayGroupText;
          content1 =
            (if length todayTimes > 0
             then foldl (\<lambda>content t. content @ time_line t) content0 todayTimes
             else if includes_js todayGroupText lit_all_day_marker
                  then content0 @ lit_all_day
                  else content0 @ lit_unavailable GROUP);
          content2 =
            (if truthy tomorrowGroupText then
               (let tomorrowTimes = parseOutageTimes (the tomorrowGroupText)
                in if length tomorrowTimes > 0
                   then foldl (\<lambda>content t. content @ time_line t)
                          (content1 @ lit_tomorrow_header) tomorrowTimes
                   else if includes_js (the tomorrowGroupText) lit_all_day_marker
                        then content1 @ lit_tomorrow_all_day
                        else content1)
             else content1);
          emojiGroup = formatGroupEmoji GROUP
      in content2 @ [0xA] @ emojiGroup)"

section \<open>Notions used in the statements and proofs\<close>


text \<open>
  The shape of a capture of \<open>match_hhmm\<close>, and the offset from midnight that such a
  capture denotes, in milliseconds.
\<close>

definition hhmm :: "jsstring \<Rightarrow> bool" where
  "hhmm s = (\<exists>a b c d. is_digit a \<and> is_digit b \<and> is_digit c \<and> is_digit d \<and> s = [a, b, 0x3A, c, d])"

definition clock_ms :: "jsstring \<Rightarrow> int" where
  "clock_ms s = to_number (take 2 s) * msPerHour + to_number (drop 3 s) * msPerMinute"

text \<open>
  What the schedule content says about one day: the labels of its outages, or that the
  power is on all day, or that there are no data. For tomorrow there is a fourth case:
  nothing is said.
\<close>

datatype day_content = Outages "jsstring list" | AllDay | NoData

definition today_content :: "jsstring \<Rightarrow> day_content" where
  "today_content t =
     (if parseOutageTimes t \<noteq> [] then Outages (parseOutageTimes t)
      else if includes_js t lit_all_day_marker then AllDay else NoData)"

definition tomorrow_content :: "jsstring option \<Rightarrow> day_content option" where
  "tomorrow_content tm =
     (if truthy tm then
        (if parseOutageTimes (the tm) \<noteq> [] then Some (Outages (parseOutageTimes (the tm)))
         else if includes_js (the tm) lit_all_day_marker then Some AllDay else None)
      else None)"

text \<open>The two parts of the schedule content that depend on the texts.\<close>

definition today_part :: "jsstring \<Rightarrow> jsstring \<Rightarrow> jsstring" where
  "today_part g t =
     (if parseOutageTimes t \<noteq> [] then concat (map time_line (parseOutageTimes t))
      else if includes_js t lit_all_day_marker then lit_all_day else lit_unavailable g)"

definition tomorrow_part :: "jsstring option \<Rightarrow> jsstring" where
  "tomorrow_part tm =
     (if truthy tm then
        (if parseOutageTimes (the tm) \<noteq> []
         then lit_tomorrow_header @ concat (map time_line (parseOutageTimes (the tm)))
         else if includes_js (the tm) lit_all_day_marker then lit_tomorrow_all_day else [])
      else [])"

subsection \<open>Sample schedule texts\<close>

text \<open>
  The paragraph of group 1.2 as the source's tests write it: the prefix up to the marker
  of the outage list, and one outage.
\<close>

definition sample_prefix :: jsstring where
  "sample_prefix = w_Grupa @ ascii '' 1.2. '' @ w_Elektroenerhii @ [0x20] @ w_nemaie @ [0x20]"

definition outage :: "string \<Rightarrow> string \<Rightarrow> jsstring" where
  "outage a b = w_z @ [0x20] @ ascii a @ [0x20] @ w_do @ [0x20] @ ascii b"

definition scenario_text :: jsstring where
  "scenario_text =
     sample_prefix @ outage ''05:30'' ''12:30'' @ ascii '', '' @ outage ''16:00'' ''21:00'' @
     ascii '', '' @ outage ''23:00'' ''24:00'' @ ascii ''.''"

text \<open>The texts of the tests that cross midnight: a paragraph with two outages.\<close>

definition two_outages :: "string \<Rightarrow> string \<Rightarrow> string \<Rightarrow> string \<Rightarrow> jsstring" where
  "two_outages a b c d = sample_prefix @ outage a b @ ascii '', '' @ outage c d @ ascii ''.''"

definition today_daytime_text :: jsstring where
  "today_daytime_text = two_outages ''08:00'' ''12:00'' ''16:00'' ''20:00''"

definition today_evening_text :: jsstring where
  "today_evening_text = two_outages ''08:00'' ''12:00'' ''22:00'' ''24:00''"




text \<open>
  The paragraph of \<open>today_daytime_text\<close> in three pieces (what precedes the marker of the
  outage list, the marker, the list), a label as \<open>parseOutageTimes\<close> returns it, and a
  timestamp as the page's information paragraph writes it.
\<close>

definition info_stamp :: "string \<Rightarrow> jsstring" where
  "info_stamp t = w_Informatsiia @ [0x20] @ w_stanom @ [0x20] @ w_na @ [0x20] @ ascii t"

definition group_intro :: jsstring where
  "group_intro = w_Grupa @ ascii '' 1.2. '' @ w_Elektroenerhii @ [0x20]"

definition daytime_list :: jsstring where
  "daytime_list =
     ascii ''08:00 '' @ w_do @ ascii '' 12:00, '' @ w_z @ ascii '' 16:00 '' @ w_do @
     ascii '' 20:00.''"

definition label :: "string \<Rightarrow> string \<Rightarrow> jsstring" where
  "label a b = ascii a @ [0x20] @ w_do @ [0x20] @ ascii b"

text \<open>The paragraph with a timestamp behind the outage list, on the same line.\<close>

definition stamped_after :: "string \<Rightarrow> jsstring" where
  "stamped_after t = group_intro @ lit_nemaie_z @ daytime_list @ [0x20] @ info_stamp t"

text \<open>A document with two paragraphs of group 1.2.\<close>

definition sample_html :: jsstring where
  "sample_html =
     ascii ''<p>'' @ today_daytime_text @ ascii ''</p><p>'' @ today_evening_text @ ascii ''</p>''"

section \<open>The calendar\<close>
















section \<open>Setting the fields of an instant\<close>

lemma startOf_day_dvd: "msPerDay dvd startOf_day t"
  by (simp add: startOf_day_def dvd_eq_mod_eq_0 mod_diff_left_eq[symmetric])

lemma set_hour_eq: "set_hour t h = startOf_day t + h * msPerHour + t mod msPerHour"
proof -
  have d: "t mod msPerDay mod msPerHour = t mod msPerHour"
    by (rule mod_mod_cancel) (simp add: msPerDay_def msPerHour_def)
  have "t mod msPerDay = (t mod msPerDay) div msPerHour * msPerHour + t mod msPerDay mod msPerHour"
    by simp
  then have "(t mod msPerDay) div msPerHour * msPerHour = t mod msPerDay - t mod msPerHour"
    using d by linarith
  then show ?thesis
    by (simp add: set_hour_def get_hour_def startOf_day_def algebra_simps)
qed

lemma set_minute_eq: "set_minute t m = t - t mod msPerHour + m * msPerMinute + t mod msPerMinute"
proof -
  have d: "t mod msPerHour mod msPerMinute = t mod msPerMinute"
    by (rule mod_mod_cancel) (simp add: msPerMinute_def msPerHour_def)
  have "t mod msPerHour = (t mod msPerHour) div msPerMinute * msPerMinute + t mod msPerHour mod msPerMinute"
    by simp
  then have "(t mod msPerHour) div msPerMinute * msPerMinute = t mod msPerHour - t mod msPerMinute"
    using d by linarith
  then show ?thesis
    by (simp add: set_minute_def get_minute_def algebra_simps)
qed

lemma set_second_eq: "set_second t s = t - t mod msPerMinute + s * 1000 + t mod 1000"
proof -
  have d: "t mod msPerMinute mod 1000 = t mod 1000"
    by (rule mod_mod_cancel) (simp add: msPerMinute_def)
  have "t mod msPerMinute = (t mod msPerMinute) div 1000 * 1000 + t mod msPerMinute mod 1000"
    by simp
  then have "(t mod msPerMinute) div 1000 * 1000 = t mod msPerMinute - t mod 1000"
    using d by linarith
  then show ?thesis
    by (simp add: set_second_def get_second_def algebra_simps)
qed

lemma set_millisecond_eq: "set_millisecond t ms = t - t mod 1000 + ms"
  by (simp add: set_millisecond_def get_millisecond_def)

lemma mod_add_multiple: "(k::int) dvd a \<Longrightarrow> (a + b) mod k = b mod k"
  by (metis dvd_eq_mod_eq_0 mod_add_left_eq add_0)

lemma set_fields_eq:
  "set_millisecond (set_second (set_minute (set_hour t h) m) 0) 0 =
     startOf_day t + h * msPerHour + m * msPerMinute"
proof -
  define s where "s = startOf_day t"
  have sH: "msPerHour dvd s + h * msPerHour"
    using startOf_day_dvd[of t] by (auto simp: s_def msPerDay_def msPerHour_def elim!: dvdE)
  have sM: "msPerMinute dvd s + h * msPerHour + m * msPerMinute"
    using startOf_day_dvd[of t] by (auto simp: s_def msPerDay_def msPerHour_def msPerMinute_def elim!: dvdE)
  have sK: "1000 dvd s + h * msPerHour + m * msPerMinute"
    using startOf_day_dvd[of t] by (auto simp: s_def msPerDay_def msPerHour_def msPerMinute_def elim!: dvdE)
  have a: "set_hour t h = (s + h * msPerHour) + t mod msPerHour"
    by (simp add: set_hour_eq s_def)
  have a_H: "set_hour t h mod msPerHour = t mod msPerHour"
    unfolding a using mod_add_multiple[OF sH] by simp
  have MH: "msPerMinute dvd msPerHour" by (simp add: msPerMinute_def msPerHour_def)
  have a_M: "set_hour t h mod msPerMinute = t mod msPerMinute"
    by (metis a_H MH mod_mod_cancel)
  have b: "set_minute (set_hour t h) m = (s + h * msPerHour + m * msPerMinute) + t mod msPerMinute"
    by (simp add: set_minute_eq a_H a_M) (simp add: a)
  have b_M: "set_minute (set_hour t h) m mod msPerMinute = t mod msPerMinute"
    unfolding b using mod_add_multiple[OF sM] by simp
  have KM: "1000 dvd msPerMinute" by (simp add: msPerMinute_def)
  have b_K: "set_minute (set_hour t h) m mod 1000 = t mod 1000"
    by (metis b_M KM mod_mod_cancel)
  have c: "set_second (set_minute (set_hour t h) m) 0 = (s + h * msPerHour + m * msPerMinute) + t mod 1000"
    by (simp add: set_second_eq b_M b_K) (simp add: b)
  have c_K: "set_second (set_minute (set_hour t h) m) 0 mod 1000 = t mod 1000"
    unfolding c using mod_add_multiple[OF sK] by simp
  show ?thesis
    by (simp add: set_millisecond_eq c_K) (simp add: c s_def)
qed

section \<open>The matches and their ranges\<close>

lemma match_hhmm_Some: "match_hhmm s = Some (cap, rest) \<Longrightarrow> hhmm cap"
  by (cases s rule: match_hhmm.cases) (auto simp: hhmm_def split: if_splits)

lemma match_range_Some: "match_range s = Some m \<Longrightarrow> hhmm (fst m) \<and> hhmm (snd m)"
  unfolding match_range_def
  by (auto split: option.splits prod.splits simp: match_hhmm_Some)

lemma exec_all_hhmm: "m \<in> set (exec_all k s) \<Longrightarrow> hhmm (fst m) \<and> hhmm (snd m)"
  by (induction k s rule: exec_all.induct) (auto split: option.splits dest: match_range_Some)

lemma split_hhmm:
  "is_digit a \<Longrightarrow> is_digit b \<Longrightarrow> is_digit c \<Longrightarrow> is_digit d \<Longrightarrow>
   split_chr 0x3A [a, b, 0x3A, c, d] = [[a, b], [c, d]]"
  by (auto simp: is_digit_def)

lemma clock_on_hhmm:
  assumes "hhmm s"
  shows "clock_on base s = startOf_day base + clock_ms s"
proof -
  obtain a b c d where dg: "is_digit a" "is_digit b" "is_digit c" "is_digit d"
    and s: "s = [a, b, 0x3A, c, d]"
    using assms unfolding hhmm_def by blast
  have sp: "split_chr 0x3A s = [[a, b], [c, d]]"
    unfolding s by (rule split_hhmm[OF dg])
  show ?thesis
    unfolding clock_on_def sp set_fields_eq by (simp add: clock_ms_def s)
qed

lemma clock_ms_bounds: "hhmm s \<Longrightarrow> 0 \<le> clock_ms s \<and> clock_ms s \<le> 99 * msPerHour + 99 * msPerMinute"
  unfolding hhmm_def
  by (auto simp: clock_ms_def to_number_def is_digit_def msPerHour_def msPerMinute_def)

lemma clock_ms_2400: "clock_ms (ascii ''24:00'') = msPerDay"
  by (simp add: clock_ms_def ascii_def to_number_def msPerHour_def msPerDay_def)


lemma startOf_day_add_day: "startOf_day (add_day t n) = add_day (startOf_day t) n"
  by (simp add: startOf_day_def add_day_def)

lemma sentinel_eq:
  "set_millisecond (set_second (set_minute (set_hour (add_day base 1) 0) 0) 0) 0
     = startOf_day base + msPerDay"
  by (simp add: set_fields_eq startOf_day_add_day) (simp add: add_day_def)

lemma range_of_match_eq:
  assumes "hhmm (fst m)" "hhmm (snd m)"
  shows "range_start (range_of_match base m) = startOf_day base + clock_ms (fst m)"
    and "range_end (range_of_match base m) =
           (if clock_ms (snd m) < clock_ms (fst m)
            then startOf_day base + clock_ms (snd m) + msPerDay
            else startOf_day base + clock_ms (snd m))"
  using assms unfolding range_of_match_def Let_def sentinel_eq
  by (auto simp: clock_on_hhmm isBefore_def add_day_def clock_ms_2400)

lemma set_parseTimeRanges:
  "set (parseTimeRanges text base) = range_of_match base ` set (exec_all 0 text)"
  by (simp add: parseTimeRanges_def)

section \<open>The literal scenario\<close>

lemmas word_defs = w_Grupa_def w_Elektroenerhii_def w_Elektroenerhiia_def w_nemaie_def w_z_def
  w_do_def w_ie_def w_ves_def w_den_def w_dani_def w_nedostupni_def w_Zavtra_def
  w_Informatsiia_def w_stanom_def w_na_def

lemmas scan_defs = match_range_def lit_z_sp_def lit_sp_do_sp_def is_digit_def

lemma exec_all_numeral [simp]:
  "exec_all (numeral n) (c # cs) = exec_all (pred_numeral n) cs"
  by (simp add: numeral_eq_Suc)

lemma exec_all_scenario:
  "exec_all 0 scenario_text =
     [(ascii ''05:30'', ascii ''12:30''), (ascii ''16:00'', ascii ''21:00''),
      (ascii ''23:00'', ascii ''24:00'')]"
  by (simp add: scenario_text_def sample_prefix_def outage_def word_defs ascii_def scan_defs)

lemma hhmm_ascii:
  "hhmm (ascii ''05:30'')" "hhmm (ascii ''12:30'')" "hhmm (ascii ''16:00'')"
  "hhmm (ascii ''21:00'')" "hhmm (ascii ''23:00'')" "hhmm (ascii ''24:00'')"
  by (simp_all add: hhmm_def ascii_def is_digit_def)

lemma clock_ms_ascii:
  "clock_ms (ascii ''05:30'') = 19800000" "clock_ms (ascii ''12:30'') = 45000000"
  "clock_ms (ascii ''16:00'') = 57600000" "clock_ms (ascii ''21:00'') = 75600000"
  "clock_ms (ascii ''23:00'') = 82800000" "clock_ms (ascii ''24:00'') = 86400000"
  by (simp_all add: clock_ms_def ascii_def to_number_def msPerHour_def msPerMinute_def)

lemma range_eqI: "range_start r = a \<Longrightarrow> range_end r = b \<Longrightarrow> r = \<lparr>range_start = a, range_end = b\<rparr>"
  by (cases r) simp

lemma parse_scenario:
  "parseTimeRanges scenario_text base =
     [\<lparr>range_start = startOf_day base + 19800000, range_end = startOf_day base + 45000000\<rparr>,
      \<lparr>range_start = startOf_day base + 57600000, range_end = startOf_day base + 75600000\<rparr>,
      \<lparr>range_start = startOf_day base + 82800000, range_end = startOf_day base + 86400000\<rparr>]"
proof -
  have a: "range_of_match base (ascii ''05:30'', ascii ''12:30'') =
      \<lparr>range_start = startOf_day base + 19800000, range_end = startOf_day base + 45000000\<rparr>"
    by (rule range_eqI) (simp_all add: range_of_match_eq hhmm_ascii clock_ms_ascii)
  have b: "range_of_match base (ascii ''16:00'', ascii ''21:00'') =
      \<lparr>range_start = startOf_day base + 57600000, range_end = startOf_day base + 75600000\<rparr>"
    by (rule range_eqI) (simp_all add: range_of_match_eq hhmm_ascii clock_ms_ascii)
  have c: "range_of_match base (ascii ''23:00'', ascii ''24:00'') =
      \<lparr>range_start = startOf_day base + 82800000, range_end = startOf_day base + 86400000\<rparr>"
    by (rule range_eqI) (simp_all add: range_of_match_eq hhmm_ascii clock_ms_ascii)
  show ?thesis
    unfolding parseTimeRanges_def exec_all_scenario by (simp add: a b c)
qed





section \<open>The end-of-day sentinel and the order of start and end\<close>

lemma get_hour_midnight: "get_hour (add_day (startOf_day t) n) = 0"
proof -
  have "msPerDay dvd add_day (startOf_day t) n"
    using startOf_day_dvd[of t] by (simp add: add_day_def)
  then show ?thesis by (simp add: get_hour_def dvd_eq_mod_eq_0)
qed

lemma get_minute_midnight: "get_minute (add_day (startOf_day t) n) = 0"
proof -
  have "msPerDay dvd add_day (startOf_day t) n"
    using startOf_day_dvd[of t] by (simp add: add_day_def)
  moreover have "msPerHour dvd msPerDay" by (simp add: msPerHour_def msPerDay_def)
  ultimately have "msPerHour dvd add_day (startOf_day t) n" by (rule dvd_trans[rotated])
  then show ?thesis by (simp add: get_minute_def dvd_eq_mod_eq_0)
qed

text \<open>
  Claim C3, amended. A match whose end time is the literal \<open>24:00\<close> gives a range of
  the result that ends exactly one day after the start of the base day, at hour 0 and
  minute 0, provided the match's start is not later than that midnight. (The pattern
  accepts any two digits as the hour; a start after midnight moves the end one more day,
  see the counterexample.)
\<close>

theorem sentinel_end_of_day:
  assumes "m \<in> set (exec_all 0 groupText)"
    and "snd m = ascii ''24:00''"
    and "range_start (range_of_match base m) \<le> add_day (startOf_day base) 1"
  shows "range_of_match base m \<in> set (parseTimeRanges groupText base) \<and>
         range_end (range_of_match base m) = add_day (startOf_day base) 1 \<and>
         get_hour (range_end (range_of_match base m)) = 0 \<and>
         get_minute (range_end (range_of_match base m)) = 0"
proof -
  have sh: "hhmm (fst m)" "hhmm (snd m)"
    using exec_all_hhmm[OF assms(1)] by simp_all
  have "clock_ms (fst m) \<le> msPerDay"
    using assms(3) by (simp add: range_of_match_eq(1)[OF sh] add_day_def)
  then have e: "range_end (range_of_match base m) = add_day (startOf_day base) 1"
    by (simp add: range_of_match_eq(2)[OF sh] assms(2) clock_ms_2400 add_day_def)
  have "range_of_match base m \<in> set (parseTimeRanges groupText base)"
    using assms(1) by (simp add: set_parseTimeRanges)
  then show ?thesis
    by (simp add: e get_hour_midnight get_minute_midnight)
qed

lemma exec_all_one_outage:
  "hhmm (ascii a) \<Longrightarrow> hhmm (ascii b) \<Longrightarrow> exec_all 0 (outage a b) = [(ascii a, ascii b)]"
  unfolding hhmm_def
  by (auto simp: outage_def w_z_def w_do_def scan_defs)

lemma parse_one_outage:
  assumes "hhmm (ascii a)" "hhmm (ascii b)"
  shows "parseTimeRanges (outage a b) base = [range_of_match base (ascii a, ascii b)]"
  by (simp add: parseTimeRanges_def exec_all_one_outage[OF assms])

lemma range_of_match_value:
  assumes "hhmm a" "hhmm b" "clock_ms a = x" "clock_ms b = y"
  shows "range_of_match base (a, b) =
           \<lparr>range_start = startOf_day base + x,
            range_end = (if y < x then startOf_day base + y + msPerDay
                         else startOf_day base + y)\<rparr>"
  by (rule range_eqI) (simp_all add: range_of_match_eq assms)

lemma clock_ms_literals:
  "clock_ms (ascii ''25:00'') = 25 * msPerHour" "clock_ms (ascii ''24:00'') = 24 * msPerHour"
  "clock_ms (ascii ''05:00'') = 5 * msPerHour" "clock_ms (ascii ''50:00'') = 50 * msPerHour"
  "clock_ms (ascii ''01:00'') = msPerHour"
  by (simp_all add: clock_ms_def ascii_def to_number_def)

lemma startOf_day_0: "startOf_day 0 = 0"
  by (simp add: startOf_day_def)

text \<open>
  Claim C3 as stated fails: the text \<^verbatim>\<open>z 25:00 do 24:00\<close> has a match with the end time
  \<open>24:00\<close>, and its range ends two days after the start of the base day.
\<close>

theorem sentinel_after_late_start_counterexample:
  "(ascii ''25:00'', ascii ''24:00'') \<in> set (exec_all 0 (outage ''25:00'' ''24:00'')) \<and>
   parseTimeRanges (outage ''25:00'' ''24:00'') 0 =
     [\<lparr>range_start = msPerDay + msPerHour, range_end = 2 * msPerDay\<rparr>] \<and>
   2 * msPerDay \<noteq> add_day (startOf_day 0) 1"
proof -
  have h: "hhmm (ascii ''25:00'')" "hhmm (ascii ''24:00'')"
    by (simp_all add: hhmm_def ascii_def is_digit_def)
  have "range_of_match 0 (ascii ''25:00'', ascii ''24:00'') =
      \<lparr>range_start = msPerDay + msPerHour, range_end = 2 * msPerDay\<rparr>"
    by (simp add: range_of_match_value[OF h clock_ms_literals(1) clock_ms_literals(2)]
        startOf_day_0 msPerDay_def msPerHour_def)
  then show ?thesis
    by (simp add: parse_one_outage[OF h] exec_all_one_outage[OF h] add_day_def startOf_day_0
        msPerDay_def)
qed

theorem sentinel_end_of_day_witness:
  "(ascii ''23:00'', ascii ''24:00'') \<in> set (exec_all 0 scenario_text) \<and>
   snd (ascii ''23:00'', ascii ''24:00'') = ascii ''24:00'' \<and>
   range_start (range_of_match 0 (ascii ''23:00'', ascii ''24:00'')) \<le> add_day (startOf_day 0) 1 \<and>
   range_of_match 0 (ascii ''23:00'', ascii ''24:00'') \<in> set (parseTimeRanges scenario_text 0) \<and>
   range_end (range_of_match 0 (ascii ''23:00'', ascii ''24:00'')) = add_day (startOf_day 0) 1 \<and>
   get_hour (range_end (range_of_match 0 (ascii ''23:00'', ascii ''24:00''))) = 0 \<and>
   get_minute (range_end (range_of_match 0 (ascii ''23:00'', ascii ''24:00''))) = 0"
proof -
  have a: "(ascii ''23:00'', ascii ''24:00'') \<in> set (exec_all 0 scenario_text)"
    by (simp add: exec_all_scenario)
  have b: "snd (ascii ''23:00'', ascii ''24:00'') = ascii ''24:00''" by simp
  have c: "range_start (range_of_match 0 (ascii ''23:00'', ascii ''24:00''))
             \<le> add_day (startOf_day 0) 1"
    by (simp add: range_of_match_eq hhmm_ascii clock_ms_ascii add_day_def msPerDay_def)
  show ?thesis
    using sentinel_end_of_day[OF a b c] a b c by blast
qed

text \<open>
  Claim C6, amended. Every range of the result that starts no later than the midnight
  after the base day ends at or after its start; when it starts before that midnight,
  its end equals its start only if the two clock times of its match are the same.
\<close>

theorem end_not_before_start:
  assumes "r \<in> set (parseTimeRanges groupText base)"
    and "range_start r \<le> add_day (startOf_day base) 1"
  shows "range_start r \<le> range_end r \<and>
         (range_start r < add_day (startOf_day base) 1 \<and> range_end r = range_start r \<longrightarrow>
            (\<exists>m \<in> set (exec_all 0 groupText).
               r = range_of_match base m \<and> clock_ms (fst m) = clock_ms (snd m)))"
proof -
  obtain m where m: "m \<in> set (exec_all 0 groupText)" and r: "r = range_of_match base m"
    using assms(1) by (auto simp: set_parseTimeRanges)
  have sh: "hhmm (fst m)" "hhmm (snd m)"
    using exec_all_hhmm[OF m] by simp_all
  have s: "range_start r = startOf_day base + clock_ms (fst m)"
    unfolding r by (rule range_of_match_eq(1)[OF sh])
  have e: "range_end r =
      (if clock_ms (snd m) < clock_ms (fst m)
       then startOf_day base + clock_ms (snd m) + msPerDay
       else startOf_day base + clock_ms (snd m))"
    unfolding r by (rule range_of_match_eq(2)[OF sh])
  have le: "clock_ms (fst m) \<le> msPerDay"
    using assms(2) by (simp add: s add_day_def)
  have nn: "0 \<le> clock_ms (snd m)"
    using clock_ms_bounds[OF sh(2)] by simp
  have 1: "range_start r \<le> range_end r"
    using le nn by (simp add: s e)
  have 2: "clock_ms (fst m) = clock_ms (snd m)"
    if "range_start r < add_day (startOf_day base) 1" "range_end r = range_start r"
    using that nn by (simp add: s e add_day_def split: if_splits)
  show ?thesis using 1 2 m r by blast
qed

text \<open>
  Claim C6 as stated fails: a match with the same start and end time gives a range whose
  end is its start, not after it.
\<close>

theorem zero_length_interval_counterexample:
  "parseTimeRanges (outage ''05:00'' ''05:00'') 0 =
     [\<lparr>range_start = 5 * msPerHour, range_end = 5 * msPerHour\<rparr>]"
proof -
  have h: "hhmm (ascii ''05:00'')"
    by (simp add: hhmm_def ascii_def is_digit_def)
  have "range_of_match 0 (ascii ''05:00'', ascii ''05:00'') =
      \<lparr>range_start = 5 * msPerHour, range_end = 5 * msPerHour\<rparr>"
    by (simp add: range_of_match_value[OF h h clock_ms_literals(3) clock_ms_literals(3)]
        startOf_day_0 msPerDay_def msPerHour_def)
  then show ?thesis by (simp add: parse_one_outage[OF h h])
qed

text \<open>
  A start two days after the base day is beyond the one day that the correction adds:
  the end stays before the start.
\<close>

lemma end_before_start_example:
  "parseTimeRanges (outage ''50:00'' ''01:00'') 0 =
     [\<lparr>range_start = 50 * msPerHour, range_end = 25 * msPerHour\<rparr>]"
proof -
  have h: "hhmm (ascii ''50:00'')" "hhmm (ascii ''01:00'')"
    by (simp_all add: hhmm_def ascii_def is_digit_def)
  have "range_of_match 0 (ascii ''50:00'', ascii ''01:00'') =
      \<lparr>range_start = 50 * msPerHour, range_end = 25 * msPerHour\<rparr>"
    by (simp add: range_of_match_value[OF h clock_ms_literals(4) clock_ms_literals(5)]
        startOf_day_0 msPerDay_def msPerHour_def)
  then show ?thesis by (simp add: parse_one_outage[OF h])
qed

theorem end_not_before_start_witness:
  "\<lparr>range_start = 19800000, range_end = 45000000\<rparr> \<in> set (parseTimeRanges scenario_text 0) \<and>
   range_start \<lparr>range_start = 19800000, range_end = 45000000\<rparr> \<le> add_day (startOf_day 0) 1 \<and>
   range_start \<lparr>range_start = 19800000, range_end = 45000000\<rparr>
     \<le> range_end \<lparr>range_start = 19800000, range_end = 45000000\<rparr>"
proof -
  have a: "\<lparr>range_start = 19800000, range_end = 45000000\<rparr> \<in> set (parseTimeRanges scenario_text 0)"
    by (simp add: parse_scenario startOf_day_def)
  have b: "range_start \<lparr>range_start = 19800000, range_end = 45000000\<rparr> \<le> add_day (startOf_day 0) 1"
    by (simp add: add_day_def startOf_day_def msPerDay_def)
  show ?thesis
    using end_not_before_start[OF a b] a b by blast
qed

section \<open>The walk over today's ranges\<close>















section \<open>Properties of the status\<close>







subsection \<open>The sample texts parsed\<close>

lemma exec_all_two_outages:
  assumes "hhmm (ascii a)" "hhmm (ascii b)" "hhmm (ascii c)" "hhmm (ascii d)"
  shows "exec_all 0 (two_outages a b c d) = [(ascii a, ascii b), (ascii c, ascii d)]"
proof -
  have pre: "exec_all 0 (sample_prefix @ rest) = exec_all 0 rest" for rest
    by (simp add: sample_prefix_def word_defs ascii_def scan_defs)
  have one: "exec_all 0 (outage x y @ rest) = (ascii x, ascii y) # exec_all 0 rest"
    if "hhmm (ascii x)" "hhmm (ascii y)" for x y rest
    using that unfolding hhmm_def
    by (auto simp: outage_def w_z_def w_do_def scan_defs)
  have sep: "exec_all 0 (ascii '', '' @ rest) = exec_all 0 rest" for rest
    by (simp add: ascii_def w_z_def scan_defs)
  have fin: "exec_all 0 (ascii ''.'') = []"
    by (simp add: ascii_def w_z_def scan_defs)
  show ?thesis
    unfolding two_outages_def pre one[OF assms(1,2)] sep one[OF assms(3,4)] fin ..
qed

lemma hhmm_literals:
  "hhmm (ascii ''00:00'')" "hhmm (ascii ''02:00'')" "hhmm (ascii ''06:00'')"
  "hhmm (ascii ''08:00'')" "hhmm (ascii ''10:00'')" "hhmm (ascii ''12:00'')"
  "hhmm (ascii ''14:00'')" "hhmm (ascii ''16:00'')" "hhmm (ascii ''18:00'')"
  "hhmm (ascii ''20:00'')" "hhmm (ascii ''22:00'')" "hhmm (ascii ''23:30'')"
  "hhmm (ascii ''24:00'')"
  by (simp_all add: hhmm_def ascii_def is_digit_def)

lemma clock_ms_hours:
  "clock_ms (ascii ''00:00'') = 0" "clock_ms (ascii ''02:00'') = 2 * msPerHour"
  "clock_ms (ascii ''06:00'') = 6 * msPerHour" "clock_ms (ascii ''08:00'') = 8 * msPerHour"
  "clock_ms (ascii ''10:00'') = 10 * msPerHour" "clock_ms (ascii ''12:00'') = 12 * msPerHour"
  "clock_ms (ascii ''14:00'') = 14 * msPerHour" "clock_ms (ascii ''16:00'') = 16 * msPerHour"
  "clock_ms (ascii ''18:00'') = 18 * msPerHour" "clock_ms (ascii ''20:00'') = 20 * msPerHour"
  "clock_ms (ascii ''22:00'') = 22 * msPerHour"
  "clock_ms (ascii ''23:30'') = 23 * msPerHour + 30 * msPerMinute"
  by (simp_all add: clock_ms_def ascii_def to_number_def)

lemma parse_two_outages:
  assumes "hhmm (ascii a)" "hhmm (ascii b)" "hhmm (ascii c)" "hhmm (ascii d)"
    and "clock_ms (ascii a) = x" "clock_ms (ascii b) = y"
    and "clock_ms (ascii c) = z" "clock_ms (ascii d) = w"
    and "x \<le> y" "z \<le> w" "x \<le> z"
  shows "parseTimeRanges (two_outages a b c d) base =
           [\<lparr>range_start = startOf_day base + x, range_end = startOf_day base + y\<rparr>,
            \<lparr>range_start = startOf_day base + z, range_end = startOf_day base + w\<rparr>]"
  unfolding parseTimeRanges_def exec_all_two_outages[OF assms(1-4)]
  using assms(9-11)
  by (simp add: range_of_match_value[OF assms(1,2,5,6)] range_of_match_value[OF assms(3,4,7,8)])

lemma parse_today_daytime:
  "parseTimeRanges today_daytime_text base =
     [\<lparr>range_start = startOf_day base + 8 * msPerHour,
       range_end = startOf_day base + 12 * msPerHour\<rparr>,
      \<lparr>range_start = startOf_day base + 16 * msPerHour,
       range_end = startOf_day base + 20 * msPerHour\<rparr>]"
  unfolding today_daytime_text_def
  by (rule parse_two_outages) (simp_all add: hhmm_literals clock_ms_hours msPerHour_def)





subsection \<open>An outage that runs to midnight\<close>


lemma two_outages_nonempty: "two_outages a b c d \<noteq> []"
  by (simp add: two_outages_def sample_prefix_def w_Grupa_def)











section \<open>The paragraph that is extracted\<close>

lemma fold_extract:
  "fold (\<lambda>el groupText. if startsWith (trim el) p then Some (trim el) else groupText) ps acc =
     (case filter (\<lambda>t. startsWith t p) (map trim ps) of
        [] \<Rightarrow> acc
      | m # ms \<Rightarrow> Some (last (m # ms)))"
proof (induction ps arbitrary: acc)
  case Nil
  then show ?case by simp
next
  case (Cons a ps)
  show ?case
    unfolding fold_Cons comp_def Cons.IH
    by (simp split: list.splits)
qed

text \<open>
  Claim C2, amended. \<open>extractGroupText\<close> returns nothing for an empty markup; otherwise
  it returns the trimmed text of the last paragraph, in document order, whose trimmed
  text begins with the prefix of the group, and nothing when no paragraph does.
\<close>

theorem extractGroupText_last_match:
  "extractGroupText html paragraphs grp =
     (if html = [] then None
      else (case filter (\<lambda>t. startsWith t (group_prefix grp)) (map trim paragraphs) of
              [] \<Rightarrow> None
            | m # ms \<Rightarrow> Some (last (m # ms))))"
  unfolding extractGroupText_def Let_def fold_extract ..

lemma trim_id:
  assumes "s \<noteq> []" "\<not> is_space (hd s)" "\<not> is_space (last s)"
  shows "trim s = s"
proof -
  have a: "dropWhile is_space s = s"
    using assms(1,2) by (simp add: dropWhile_eq_self_iff)
  have "hd (rev s) = last s" using assms(1) by (simp add: hd_rev)
  then have b: "dropWhile is_space (rev s) = rev s"
    using assms(3) by (simp add: dropWhile_eq_self_iff)
  show ?thesis by (simp add: trim_def a b)
qed

lemma two_outages_ends:
  "hd (two_outages a b c d) = 0x413" "last (two_outages a b c d) = 0x2E"
  by (simp_all add: two_outages_def sample_prefix_def w_Grupa_def ascii_def)

lemma trim_two_outages: "trim (two_outages a b c d) = two_outages a b c d"
  by (rule trim_id) (simp_all add: two_outages_nonempty two_outages_ends is_space_def)

lemma two_outages_group: "startsWith (two_outages a b c d) (group_prefix (ascii ''1.2''))"
  by (simp add: startsWith_def group_prefix_def two_outages_def sample_prefix_def w_Grupa_def
      ascii_def)

text \<open>
  Claim C2 as stated fails on a document with two paragraphs of the group: the second one
  is returned, not the first.
\<close>

theorem extractGroupText_first_match_counterexample:
  "sample_html \<noteq> [] \<and>
   startsWith (trim today_daytime_text) (group_prefix (ascii ''1.2'')) \<and>
   startsWith (trim today_evening_text) (group_prefix (ascii ''1.2'')) \<and>
   extractGroupText sample_html [today_daytime_text, today_evening_text] (ascii ''1.2'')
     = Some today_evening_text \<and>
   today_evening_text \<noteq> trim today_daytime_text"
proof -
  have t: "trim today_daytime_text = today_daytime_text"
    "trim today_evening_text = today_evening_text"
    by (simp_all add: today_daytime_text_def today_evening_text_def trim_two_outages)
  have g: "startsWith today_daytime_text (group_prefix (ascii ''1.2''))"
    "startsWith today_evening_text (group_prefix (ascii ''1.2''))"
    by (simp_all add: today_daytime_text_def today_evening_text_def two_outages_group)
  have h: "sample_html \<noteq> []"
    by (simp add: sample_html_def ascii_def)
  have ne: "today_evening_text \<noteq> today_daytime_text"
    by (simp add: today_daytime_text_def today_evening_text_def two_outages_def outage_def
        ascii_def)
  have "extractGroupText sample_html [today_daytime_text, today_evening_text] (ascii ''1.2'')
     = Some today_evening_text"
    by (simp add: extractGroupText_def h t g)
  then show ?thesis using h t g ne by simp
qed

section \<open>The schedule content determines what it renders\<close>

lemma foldl_time_lines:
  "foldl (\<lambda>content t. content @ time_line t) acc ts = acc @ concat (map time_line ts)"
  by (induction ts arbitrary: acc) simp_all

lemma buildScheduleContent_parts:
  "buildScheduleContent g t tm = today_part g t @ tomorrow_part tm @ [0xA] @ formatGroupEmoji g"
  by (simp add: buildScheduleContent_def Let_def foldl_time_lines today_part_def tomorrow_part_def)

lemma split_chr_nonempty: "split_chr sep s \<noteq> []"
  by (induction s) (auto split: list.splits)

lemma set_split_chr: "w \<in> set (split_chr sep s) \<Longrightarrow> set w \<subseteq> set s"
proof (induction s arbitrary: w)
  case Nil
  then show ?case by simp
next
  case (Cons c cs)
  show ?case
  proof (cases "c = sep")
    case True
    then show ?thesis using Cons by auto
  next
    case False
    obtain v vs where sp: "split_chr sep cs = v # vs"
      using split_chr_nonempty[of sep cs] by (cases "split_chr sep cs") auto
    have v: "set v \<subseteq> set cs" by (rule Cons.IH) (simp add: sp)
    have vs: "set u \<subseteq> set cs" if "u \<in> set vs" for u
      using that by (intro Cons.IH) (simp add: sp)
    show ?thesis using Cons.prems False v vs by (auto simp: sp)
  qed
qed

lemma set_replace_z_space: "set (replace_z_space s) \<subseteq> set s"
  by (induction s) (auto dest: set_dropWhileD)

lemma set_replace_final_dot: "set (replace_final_dot s) \<subseteq> set s"
  by (auto simp: replace_final_dot_def dest: in_set_butlastD)

lemma set_trim: "set (trim s) \<subseteq> set s"
  by (auto simp: trim_def dest!: set_dropWhileD)

lemma parseOutageTimes_labels:
  assumes "l \<in> set (parseOutageTimes t)"
  shows "l \<noteq> []" and "0xA \<notin> set l"
proof -
  show "l \<noteq> []" using assms by (auto simp: parseOutageTimes_def Let_def split: option.splits)
  obtain rest w where w: "w \<in> set (split_chr 0x2C (takeWhile (\<lambda>c. \<not> is_line_terminator c) rest))"
    and l: "l = trim (replace_final_dot (replace_z_space w))"
    using assms by (auto simp: parseOutageTimes_def Let_def split: option.splits)
  have "set l \<subseteq> set w"
    unfolding l using set_trim set_replace_final_dot set_replace_z_space by blast
  also have "\<dots> \<subseteq> set (takeWhile (\<lambda>c. \<not> is_line_terminator c) rest)"
    by (rule set_split_chr[OF w])
  finally have "\<forall>c\<in>set l. \<not> is_line_terminator c"
    by (auto dest: set_takeWhileD)
  then show "0xA \<notin> set l"
    by (auto simp: is_line_terminator_def)
qed

lemma split_at_first:
  assumes "a \<notin> set xs" "a \<notin> set ys" "xs @ a # r = ys @ a # r'"
  shows "xs = ys \<and> r = r'"
  using assms
proof (induction xs arbitrary: ys)
  case Nil
  then show ?case by (cases ys) auto
next
  case (Cons x xs)
  then show ?case by (cases ys) auto
qed

lemma time_line_eq:
  assumes "0xA \<notin> set l1" "0xA \<notin> set l2" "time_line l1 @ r1 = time_line l2 @ r2"
  shows "l1 = l2 \<and> r1 = r2"
proof -
  have "l1 @ 0xA # r1 = l2 @ 0xA # r2"
    using assms(3) by (simp add: time_line_def)
  then show ?thesis
    by (rule split_at_first[OF assms(1,2)])
qed

lemma lines_nonempty: "ls \<noteq> [] \<Longrightarrow> \<exists>r. concat (map time_line ls) = 0x23F1 # r"
  by (cases ls) (simp_all add: time_line_def)

lemma lines_inj:
  assumes "\<forall>l\<in>set ls1 \<union> set ls2. 0xA \<notin> set l"
    and "r1 = [] \<or> hd r1 \<noteq> 0x23F1" "r2 = [] \<or> hd r2 \<noteq> 0x23F1"
    and "concat (map time_line ls1) @ r1 = concat (map time_line ls2) @ r2"
  shows "ls1 = ls2 \<and> r1 = r2"
  using assms
proof (induction ls1 arbitrary: ls2)
  case Nil
  show ?case
  proof (cases ls2)
    case Nil
    then show ?thesis using Nil.prems by simp
  next
    case (Cons l ls)
    then have "ls2 \<noteq> []" by simp
    then obtain x where x: "concat (map time_line ls2) = 0x23F1 # x"
      using lines_nonempty[of ls2] by blast
    have "r1 = 0x23F1 # (x @ r2)"
      using Nil.prems(4) unfolding x by simp
    then have "r1 \<noteq> [] \<and> hd r1 = 0x23F1" by simp
    then show ?thesis using Nil.prems(2) by blast
  qed
next
  case (Cons l ls1)
  show ?case
  proof (cases ls2)
    case Nil
    obtain x where x: "concat (map time_line (l # ls1)) = 0x23F1 # x"
      using lines_nonempty[of "l # ls1"] by blast
    have "r2 = 0x23F1 # (x @ r1)"
      using Cons.prems(4) unfolding x Nil by simp
    then have "r2 \<noteq> [] \<and> hd r2 = 0x23F1" by simp
    then show ?thesis using Cons.prems(3) by blast
  next
    case c: (Cons l' ls2')
    have "time_line l @ (concat (map time_line ls1) @ r1)
        = time_line l' @ (concat (map time_line ls2') @ r2)"
      using Cons.prems(4) by (simp add: c)
    moreover have nl: "0xA \<notin> set l" "0xA \<notin> set l'"
      using Cons.prems(1) by (simp_all add: c)
    ultimately have e: "l = l' \<and>
        concat (map time_line ls1) @ r1 = concat (map time_line ls2') @ r2"
      using time_line_eq[OF nl] by blast
    have rest: "\<forall>l\<in>set ls1 \<union> set ls2'. 0xA \<notin> set l"
      using Cons.prems(1) by (simp add: c)
    have "ls1 = ls2' \<and> r1 = r2"
      using e by (intro Cons.IH[OF rest Cons.prems(2,3)]) simp
    then show ?thesis using e by (simp add: c)
  qed
qed

lemma tomorrow_part_head: "tomorrow_part tm = [] \<or> hd (tomorrow_part tm) \<noteq> 0x23F1"
  by (simp add: tomorrow_part_def lit_tomorrow_header_def lit_tomorrow_all_day_def)

lemma labels_no_newline:
  "\<forall>l\<in>set (parseOutageTimes t1) \<union> set (parseOutageTimes t2). 0xA \<notin> set l"
  using parseOutageTimes_labels(2) by blast

lemma tomorrow_part_cases:
  obtains (absent) "tomorrow_content tm = None" "tomorrow_part tm = []"
  | (all_day) "tomorrow_content tm = Some AllDay" "tomorrow_part tm = lit_tomorrow_all_day"
  | (outages) ls where "tomorrow_content tm = Some (Outages ls)"
      "tomorrow_part tm = lit_tomorrow_header @ concat (map time_line ls)"
      "\<forall>l\<in>set ls. 0xA \<notin> set l"
proof (cases "truthy tm \<and> parseOutageTimes (the tm) \<noteq> []")
  case True
  then show ?thesis
    using outages[of "parseOutageTimes (the tm)"] parseOutageTimes_labels(2)
    by (simp add: tomorrow_content_def tomorrow_part_def)
next
  case False
  then show ?thesis
    using absent all_day
    by (cases "truthy tm \<and> includes_js (the tm) lit_all_day_marker")
      (auto simp: tomorrow_content_def tomorrow_part_def)
qed

lemma tomorrow_literals:
  "lit_tomorrow_all_day \<noteq> []"
  "lit_tomorrow_header @ x \<noteq> []"
  "lit_tomorrow_header @ x \<noteq> lit_tomorrow_all_day"
  by (simp_all add: lit_tomorrow_header_def lit_tomorrow_all_day_def w_Zavtra_def)

lemma tomorrow_part_inj:
  assumes eq: "tomorrow_part tm1 = tomorrow_part tm2"
  shows "tomorrow_content tm1 = tomorrow_content tm2"
proof (cases rule: tomorrow_part_cases[where tm = tm1])
  case absent
  note a = absent
  show ?thesis
  proof (cases rule: tomorrow_part_cases[where tm = tm2])
    case absent
    then show ?thesis using a by simp
  next
    case all_day
    then show ?thesis using a eq tomorrow_literals(1) by simp
  next
    case (outages ls)
    then show ?thesis using a eq tomorrow_literals(2)[of "concat (map time_line ls)"] by simp
  qed
next
  case all_day
  note a = all_day
  show ?thesis
  proof (cases rule: tomorrow_part_cases[where tm = tm2])
    case absent
    then show ?thesis using a eq tomorrow_literals(1) by simp
  next
    case all_day
    then show ?thesis using a by simp
  next
    case (outages ls)
    then show ?thesis using a eq tomorrow_literals(3)[of "concat (map time_line ls)"] by simp
  qed
next
  case (outages ls1)
  note a = outages
  show ?thesis
  proof (cases rule: tomorrow_part_cases[where tm = tm2])
    case absent
    then show ?thesis using a eq tomorrow_literals(2)[of "concat (map time_line ls1)"] by simp
  next
    case all_day
    then show ?thesis using a eq tomorrow_literals(3)[of "concat (map time_line ls1)"] by simp
  next
    case (outages ls2)
    have "concat (map time_line ls1) @ [] = concat (map time_line ls2) @ []"
      using eq a(2) outages(2) by simp
    moreover have "\<forall>l\<in>set ls1 \<union> set ls2. 0xA \<notin> set l"
      using a(3) outages(3) by blast
    ultimately have "ls1 = ls2 \<and> ([]::jsstring) = []"
      by (intro lines_inj) simp_all
    then show ?thesis using a(1) outages(1) by simp
  qed
qed

lemma today_part_cases:
  obtains (no_data) "today_content t = NoData" "today_part g t = lit_unavailable g"
      "hd (today_part g t) = 0x2A" "today_part g t \<noteq> []"
  | (all_day) "today_content t = AllDay" "today_part g t = lit_all_day"
      "hd (today_part g t) = 0x2705" "today_part g t \<noteq> []"
  | (outages) ls where "today_content t = Outages ls"
      "today_part g t = concat (map time_line ls)"
      "hd (today_part g t) = 0x23F1" "today_part g t \<noteq> []"
      "\<forall>l\<in>set ls. 0xA \<notin> set l"
proof (cases "parseOutageTimes t \<noteq> []")
  case True
  obtain r where r: "concat (map time_line (parseOutageTimes t)) = 0x23F1 # r"
    using lines_nonempty[OF True] by blast
  have p: "today_part g t = concat (map time_line (parseOutageTimes t))"
    using True by (simp add: today_part_def)
  have "hd (today_part g t) = 0x23F1" "today_part g t \<noteq> []"
    unfolding p r by simp_all
  moreover have "today_content t = Outages (parseOutageTimes t)"
    using True by (simp add: today_content_def)
  ultimately show ?thesis
    using outages[of "parseOutageTimes t"] p parseOutageTimes_labels(2) by blast
next
  case False
  show ?thesis
  proof (cases "includes_js t lit_all_day_marker")
    case True
    have "today_content t = AllDay" "today_part g t = lit_all_day"
      using False True by (simp_all add: today_content_def today_part_def)
    moreover have "hd lit_all_day = 0x2705" "lit_all_day \<noteq> []"
      by (simp_all add: lit_all_day_def)
    ultimately show ?thesis using all_day by simp
  next
    case nm: False
    have "today_content t = NoData" "today_part g t = lit_unavailable g"
      using False nm by (simp_all add: today_content_def today_part_def)
    moreover have "hd (lit_unavailable g) = 0x2A" "lit_unavailable g \<noteq> []"
      by (simp_all add: lit_unavailable_def)
    ultimately show ?thesis using no_data by simp
  qed
qed

lemma parts_inj:
  assumes eq: "today_part g t1 @ tomorrow_part tm1 = today_part g t2 @ tomorrow_part tm2"
  shows "today_content t1 = today_content t2 \<and> tomorrow_content tm1 = tomorrow_content tm2"
proof -
  have hd_eq: "hd (today_part g t1) = hd (today_part g t2)"
    if "today_part g t1 \<noteq> []" "today_part g t2 \<noteq> []"
  proof -
    have "hd (today_part g t1 @ tomorrow_part tm1) = hd (today_part g t2 @ tomorrow_part tm2)"
      using eq by simp
    then show ?thesis using that by simp
  qed
  show ?thesis
  proof (cases rule: today_part_cases[where t = t1 and g = g])
    case no_data
    note a = no_data
    show ?thesis
    proof (cases rule: today_part_cases[where t = t2 and g = g])
      case no_data
      have "tomorrow_part tm1 = tomorrow_part tm2"
        using eq by (simp add: a(2) no_data(2))
      then have "tomorrow_content tm1 = tomorrow_content tm2" by (rule tomorrow_part_inj)
      then show ?thesis by (simp add: a(1) no_data(1))
    next
      case all_day
      show ?thesis using hd_eq[OF a(4) all_day(4)] unfolding a(3) all_day(3) by simp
    next
      case (outages ls)
      show ?thesis using hd_eq[OF a(4) outages(4)] unfolding a(3) outages(3) by simp
    qed
  next
    case all_day
    note a = all_day
    show ?thesis
    proof (cases rule: today_part_cases[where t = t2 and g = g])
      case no_data
      show ?thesis using hd_eq[OF a(4) no_data(4)] unfolding a(3) no_data(3) by simp
    next
      case all_day
      have "tomorrow_part tm1 = tomorrow_part tm2"
        using eq by (simp add: a(2) all_day(2))
      then have "tomorrow_content tm1 = tomorrow_content tm2" by (rule tomorrow_part_inj)
      then show ?thesis by (simp add: a(1) all_day(1))
    next
      case (outages ls)
      show ?thesis using hd_eq[OF a(4) outages(4)] unfolding a(3) outages(3) by simp
    qed
  next
    case (outages ls1)
    note a = outages
    show ?thesis
    proof (cases rule: today_part_cases[where t = t2 and g = g])
      case no_data
      show ?thesis using hd_eq[OF a(4) no_data(4)] unfolding a(3) no_data(3) by simp
    next
      case all_day
      show ?thesis using hd_eq[OF a(4) all_day(4)] unfolding a(3) all_day(3) by simp
    next
      case (outages ls2)
      have nl: "\<forall>l\<in>set ls1 \<union> set ls2. 0xA \<notin> set l"
        using a(5) outages(5) by blast
      have "concat (map time_line ls1) @ tomorrow_part tm1
          = concat (map time_line ls2) @ tomorrow_part tm2"
        using eq by (simp add: a(2) outages(2))
      then have l: "ls1 = ls2 \<and> tomorrow_part tm1 = tomorrow_part tm2"
        by (rule lines_inj[OF nl tomorrow_part_head tomorrow_part_head])
      then have "tomorrow_content tm1 = tomorrow_content tm2" by (intro tomorrow_part_inj) simp
      then show ?thesis using l by (simp add: a(1) outages(1))
    qed
  qed
qed

lemma parts_determined:
  assumes "today_content t1 = today_content t2" "tomorrow_content tm1 = tomorrow_content tm2"
  shows "today_part g t1 = today_part g t2 \<and> tomorrow_part tm1 = tomorrow_part tm2"
  using assms
  by (auto simp: today_content_def today_part_def tomorrow_content_def tomorrow_part_def
      split: if_splits)

lemma content_eq_iff:
  "buildScheduleContent g t1 tm1 = buildScheduleContent g t2 tm2 \<longleftrightarrow>
     today_content t1 = today_content t2 \<and> tomorrow_content tm1 = tomorrow_content tm2"
proof
  assume "buildScheduleContent g t1 tm1 = buildScheduleContent g t2 tm2"
  then have "(today_part g t1 @ tomorrow_part tm1) @ ([0xA] @ formatGroupEmoji g)
      = (today_part g t2 @ tomorrow_part tm2) @ ([0xA] @ formatGroupEmoji g)"
    by (simp add: buildScheduleContent_parts)
  then have "today_part g t1 @ tomorrow_part tm1 = today_part g t2 @ tomorrow_part tm2"
    by (simp only: append_same_eq)
  then show "today_content t1 = today_content t2 \<and> tomorrow_content tm1 = tomorrow_content tm2"
    by (rule parts_inj)
next
  assume "today_content t1 = today_content t2 \<and> tomorrow_content tm1 = tomorrow_content tm2"
  then show "buildScheduleContent g t1 tm1 = buildScheduleContent g t2 tm2"
    using parts_determined[of t1 t2 tm1 tm2 g] by (simp add: buildScheduleContent_parts)
qed

section \<open>Stability and sensitivity of the schedule content\<close>

lemma match_lit_append:
  "match_lit p s = Some r \<Longrightarrow> match_lit p (s @ x) = Some (r @ x)"
  by (induction p s rule: match_lit.induct) (auto split: if_splits)

lemma match_lit_length: "match_lit p s = Some r \<Longrightarrow> length s = length p + length r"
  by (induction p s rule: match_lit.induct) (auto split: if_splits)

lemma match_lit_None_append:
  "match_lit p s = None \<Longrightarrow> length p \<le> length s \<Longrightarrow> match_lit p (s @ x) = None"
  by (induction p s rule: match_lit.induct) (auto split: if_splits)

lemma match_lit_self: "match_lit p (p @ x) = Some x"
  by (induction p) auto

lemma find_after_self: "find_after p (p @ x) = Some x"
proof (cases "p @ x")
  case Nil
  then show ?thesis by simp
next
  case (Cons a list)
  have "match_lit p (a # list) = Some x"
    using match_lit_self[of p x] unfolding Cons .
  then show ?thesis unfolding Cons by simp
qed

lemma find_after_first:
  assumes "find_after p (before @ p) = Some []"
  shows "find_after p (before @ p @ x) = Some x"
  using assms
proof (induction before)
  case Nil
  then show ?case by (simp add: find_after_self)
next
  case (Cons c cs)
  have none: "match_lit p (c # cs @ p) = None"
  proof (cases "match_lit p (c # cs @ p)")
    case None
    then show ?thesis .
  next
    case (Some r)
    then have "r = []" using Cons.prems by simp
    then show ?thesis using match_lit_length[OF Some] by simp
  qed
  then have "find_after p (cs @ p) = Some []" using Cons.prems by simp
  then have ih: "find_after p (cs @ p @ x) = Some x" by (rule Cons.IH)
  have "match_lit p ((c # cs @ p) @ x) = None"
    by (rule match_lit_None_append[OF none]) simp
  then show ?case using ih by simp
qed

lemma takeWhile_line:
  assumes "\<forall>c\<in>set timesStr. \<not> is_line_terminator c"
    and "rest = [] \<or> is_line_terminator (hd rest)"
  shows "takeWhile (\<lambda>c. \<not> is_line_terminator c) (timesStr @ rest) = timesStr"
proof -
  have "takeWhile (\<lambda>c. \<not> is_line_terminator c) rest = []"
    using assms(2) by (cases rest) auto
  then show ?thesis using assms(1) by simp
qed

lemma parseOutageTimes_line:
  assumes "find_after lit_nemaie_z (before @ lit_nemaie_z) = Some []"
    and "\<forall>c\<in>set timesStr. \<not> is_line_terminator c"
    and "rest = [] \<or> is_line_terminator (hd rest)"
  shows "parseOutageTimes (before @ lit_nemaie_z @ timesStr @ rest) =
           filter (\<lambda>t. length t > 0)
             (map (\<lambda>t. trim (replace_final_dot (replace_z_space t))) (split_chr 0x2C timesStr))"
  unfolding parseOutageTimes_def find_after_first[OF assms(1)]
  by (simp add: takeWhile_line[OF assms(2,3)])

text \<open>
  Claim C7, amended. The schedule content is a function of the group and the two texts.
  Two today texts that carry the same outage list, from behind the first marker of the
  list to the end of that line, have the same content with the same tomorrow text and
  group, whatever stands before the marker and on later lines, provided they agree on
  the presence of the all-day phrase.
\<close>

theorem content_stable_around_list:
  assumes "find_after lit_nemaie_z (before1 @ lit_nemaie_z) = Some []"
    and "find_after lit_nemaie_z (before2 @ lit_nemaie_z) = Some []"
    and "\<forall>c\<in>set timesStr. \<not> is_line_terminator c"
    and "after1 = [] \<or> is_line_terminator (hd after1)"
    and "after2 = [] \<or> is_line_terminator (hd after2)"
    and "includes_js (before1 @ lit_nemaie_z @ timesStr @ after1) lit_all_day_marker =
         includes_js (before2 @ lit_nemaie_z @ timesStr @ after2) lit_all_day_marker"
  shows "buildScheduleContent GROUP (before1 @ lit_nemaie_z @ timesStr @ after1) tomorrow =
         buildScheduleContent GROUP (before2 @ lit_nemaie_z @ timesStr @ after2) tomorrow"
proof -
  have "parseOutageTimes (before1 @ lit_nemaie_z @ timesStr @ after1) =
      parseOutageTimes (before2 @ lit_nemaie_z @ timesStr @ after2)"
    unfolding parseOutageTimes_line[OF assms(1,3,4)] parseOutageTimes_line[OF assms(2,3,5)] ..
  then have "today_content (before1 @ lit_nemaie_z @ timesStr @ after1) =
      today_content (before2 @ lit_nemaie_z @ timesStr @ after2)"
    using assms(6) by (simp add: today_content_def)
  then show ?thesis by (simp add: content_eq_iff)
qed

lemmas text_defs = ascii_def is_space_def is_line_terminator_def trim_def replace_final_dot_def
  lit_nemaie_z_def lit_all_day_marker_def

lemma labels_daytime_list:
  "filter (\<lambda>t. length t > 0)
     (map (\<lambda>t. trim (replace_final_dot (replace_z_space t))) (split_chr 0x2C daytime_list))
   = [label ''08:00'' ''12:00'', label ''16:00'' ''20:00'']"
  by (simp add: daytime_list_def label_def word_defs text_defs)

lemmas sample_defs = info_stamp_def group_intro_def daytime_list_def label_def
  sample_prefix_def outage_def two_outages_def







lemma find_after_stamped_before:
  "find_after lit_nemaie_z ((info_stamp t @ ascii ''. '' @ group_intro) @ lit_nemaie_z) = Some []"
  if "ascii t = [a, b, 0x3A, c, d]" "is_digit a" "is_digit b" "is_digit c" "is_digit d"
  using that by (simp add: sample_defs word_defs lit_nemaie_z_def is_digit_def) (simp add: ascii_def)

lemma stamp_shapes:
  "ascii ''10:00'' = [0x31, 0x30, 0x3A, 0x30, 0x30]"
  "ascii ''11:00'' = [0x31, 0x31, 0x3A, 0x30, 0x30]"
  by (simp_all add: ascii_def)

lemma daytime_list_one_line: "\<forall>c\<in>set daytime_list. \<not> is_line_terminator c"
  by (simp add: daytime_list_def word_defs text_defs)

lemma stamped_before_no_marker:
  "\<not> includes_js ((info_stamp ''10:00'' @ ascii ''. '' @ group_intro) @ lit_nemaie_z @
       daytime_list @ []) lit_all_day_marker"
  "\<not> includes_js ((info_stamp ''11:00'' @ ascii ''. '' @ group_intro) @ lit_nemaie_z @
       daytime_list @ []) lit_all_day_marker"
  by (simp_all add: includes_js_def sample_defs word_defs text_defs)

theorem content_stable_around_list_witness:
  "find_after lit_nemaie_z ((info_stamp ''10:00'' @ ascii ''. '' @ group_intro) @ lit_nemaie_z)
     = Some [] \<and>
   find_after lit_nemaie_z ((info_stamp ''11:00'' @ ascii ''. '' @ group_intro) @ lit_nemaie_z)
     = Some [] \<and>
   buildScheduleContent (ascii ''1.2'')
     ((info_stamp ''10:00'' @ ascii ''. '' @ group_intro) @ lit_nemaie_z @ daytime_list @ []) None =
   buildScheduleContent (ascii ''1.2'')
     ((info_stamp ''11:00'' @ ascii ''. '' @ group_intro) @ lit_nemaie_z @ daytime_list @ []) None"
proof -
  have a: "find_after lit_nemaie_z
      ((info_stamp ''10:00'' @ ascii ''. '' @ group_intro) @ lit_nemaie_z) = Some []"
    by (rule find_after_stamped_before[OF stamp_shapes(1)]) (simp_all add: is_digit_def)
  have b: "find_after lit_nemaie_z
      ((info_stamp ''11:00'' @ ascii ''. '' @ group_intro) @ lit_nemaie_z) = Some []"
    by (rule find_after_stamped_before[OF stamp_shapes(2)]) (simp_all add: is_digit_def)
  have e: "[] = [] \<or> is_line_terminator (hd ([]::jsstring))" by simp
  have i: "includes_js ((info_stamp ''10:00'' @ ascii ''. '' @ group_intro) @ lit_nemaie_z @
       daytime_list @ []) lit_all_day_marker =
     includes_js ((info_stamp ''11:00'' @ ascii ''. '' @ group_intro) @ lit_nemaie_z @
       daytime_list @ []) lit_all_day_marker"
    using stamped_before_no_marker by simp
  show ?thesis
    using content_stable_around_list[OF a b daytime_list_one_line e e i] a b by blast
qed

lemma labels_stamped_after:
  "parseOutageTimes (stamped_after ''10:00'') =
     [label ''08:00'' ''12:00'', label ''16:00'' ''20:00'' @ ascii ''. '' @ info_stamp ''10:00'']"
  "parseOutageTimes (stamped_after ''11:00'') =
     [label ''08:00'' ''12:00'', label ''16:00'' ''20:00'' @ ascii ''. '' @ info_stamp ''11:00'']"
  by (simp_all add: parseOutageTimes_def stamped_after_def sample_defs word_defs text_defs)

lemma exec_all_stamped_after:
  "exec_all 0 (stamped_after ''10:00'') =
     [(ascii ''08:00'', ascii ''12:00''), (ascii ''16:00'', ascii ''20:00'')]"
  "exec_all 0 (stamped_after ''11:00'') =
     [(ascii ''08:00'', ascii ''12:00''), (ascii ''16:00'', ascii ''20:00'')]"
  by (simp_all add: stamped_after_def sample_defs word_defs lit_nemaie_z_def ascii_def scan_defs)

text \<open>
  Claim C7 as stated fails when the timestamp follows the outage list on the same line:
  the pattern captures the rest of the line, so the timestamp becomes part of the last
  label. The two texts give the same ranges and different contents.
\<close>

theorem stamp_after_list_counterexample:
  "parseTimeRanges (stamped_after ''10:00'') 0 = parseTimeRanges (stamped_after ''11:00'') 0 \<and>
   parseTimeRanges (stamped_after ''10:00'') 0 =
     [\<lparr>range_start = 8 * msPerHour, range_end = 12 * msPerHour\<rparr>,
      \<lparr>range_start = 16 * msPerHour, range_end = 20 * msPerHour\<rparr>] \<and>
   buildScheduleContent (ascii ''1.2'') (stamped_after ''10:00'') None
     \<noteq> buildScheduleContent (ascii ''1.2'') (stamped_after ''11:00'') None"
proof -
  have p: "parseTimeRanges (stamped_after ''10:00'') 0 = parseTimeRanges (stamped_after ''11:00'') 0"
    by (simp add: parseTimeRanges_def exec_all_stamped_after)
  have "parseTimeRanges (stamped_after ''10:00'') 0 = parseTimeRanges today_daytime_text 0"
    by (simp add: parseTimeRanges_def exec_all_stamped_after today_daytime_text_def
        exec_all_two_outages hhmm_literals)
  then have q: "parseTimeRanges (stamped_after ''10:00'') 0 =
     [\<lparr>range_start = 8 * msPerHour, range_end = 12 * msPerHour\<rparr>,
      \<lparr>range_start = 16 * msPerHour, range_end = 20 * msPerHour\<rparr>]"
    by (simp add: parse_today_daytime startOf_day_0)
  have "info_stamp ''10:00'' \<noteq> info_stamp ''11:00''"
    by (simp add: info_stamp_def ascii_def)
  then have "today_content (stamped_after ''10:00'') \<noteq> today_content (stamped_after ''11:00'')"
    by (simp add: today_content_def labels_stamped_after)
  then have "buildScheduleContent (ascii ''1.2'') (stamped_after ''10:00'') None
     \<noteq> buildScheduleContent (ascii ''1.2'') (stamped_after ''11:00'') None"
    by (simp add: content_eq_iff)
  then show ?thesis using p q by simp
qed

end
